theory Spec2Isabelle
  imports Main "HOL-Library.Word"
begin

section \<open>Data model of the tunnel server (server/handle.go)\<close>

text \<open>
  Sockets are handles. A connection carries the handle and the remote address the
  code reads with \<^verbatim>\<open>RemoteAddr().String()\<close>; a listener is a handle.
\<close>

type_synonym byte = "8 word"

record Conn =
  fd :: nat
  RemoteAddr :: string

type_synonym Listener = nat

text \<open>\<^verbatim>\<open>type Config struct { Port int; AdminPort int }\<close>; the field comment on
  \<^verbatim>\<open>AdminPort\<close> reads "zero means disable admin server". Go's \<^verbatim>\<open>int\<close> is only
  compared and printed here, never added to, so it is an unbounded integer.\<close>

record Config =
  Port :: int
  AdminPort :: int

record Forward =
  From :: string
  To :: string
  uListener :: Listener

text \<open>Modelled from the spec: the type \<^verbatim>\<open>proxy.Traffic\<close> is declared in package
  proxy, which is not among the source files. Section 3 of the spec gives the
  traffic record as two 64-bit byte counters.\<close>

record Traffic =
  bytesAtoB :: "64 word"
  bytesBtoA :: "64 word"

text \<open>Modelled from the spec: the type \<^verbatim>\<open>ConnMap\<close> and its methods \<^verbatim>\<open>Add\<close>,
  \<^verbatim>\<open>Del\<close> and \<^verbatim>\<open>Get\<close> are declared in a file of package server that is not
  among the source files. \<^verbatim>\<open>newServer\<close> initialises its field \<^verbatim>\<open>conns\<close> with
  \<^verbatim>\<open>make(map[string]net.Conn)\<close>. The three methods follow the contract of the
  Correlation Store in section 4.1 of the spec: \<^verbatim>\<open>Add\<close> is \<^verbatim>\<open>put\<close>, a plain insert;
  \<^verbatim>\<open>Get\<close> is \<^verbatim>\<open>take\<close>, which atomically removes and returns the connection of
  the id if present and returns not found otherwise; \<^verbatim>\<open>Del\<close> is \<^verbatim>\<open>remove\<close>, the
  unconditional delete. Each method is one atomic step on the map.\<close>

record ConnMap =
  conns :: "string \<rightharpoonup> Conn"

definition ConnMap_Add :: "ConnMap \<Rightarrow> string \<Rightarrow> Conn \<Rightarrow> ConnMap" where
  "ConnMap_Add c cid conn = c\<lparr>conns := (conns c)(cid \<mapsto> conn)\<rparr>"

definition ConnMap_Del :: "ConnMap \<Rightarrow> string \<Rightarrow> ConnMap" where
  "ConnMap_Del c cid = c\<lparr>conns := (conns c)(cid := None)\<rparr>"

definition ConnMap_Get :: "ConnMap \<Rightarrow> string \<Rightarrow> Conn option \<times> ConnMap" where
  "ConnMap_Get c cid = (conns c cid, c\<lparr>conns := (conns c)(cid := None)\<rparr>)"

text \<open>\<^verbatim>\<open>type Server struct\<close>. The mutex \<^verbatim>\<open>m\<close> is not a field of the model: every
  function that takes it is one atomic state transformer.\<close>

record Server =
  cfg :: Config
  connMap :: ConnMap
  forwards :: "Forward list"
  traffics :: "Traffic list"

section \<open>Observable effects and abnormal ends\<close>

text \<open>
  What a handler does to the outside world is the list of effects it returns, in
  program order. A log effect keeps the logger's level and format string; the
  formatted arguments are not recorded. \<open>ConnClose\<close> stands for a \<^verbatim>\<open>Close()\<close> call on
  an accepted connection and \<open>ListenerClose\<close> for one on a listener. \<open>Splice\<close> is
  the call \<^verbatim>\<open>proxy.P(conn, uConn)\<close> that hands two connections to the byte copier.
\<close>

datatype LogLevel = DebugF | InfoF | WarnF | ErrorF

datatype PacketType = RegisterForward | ExchangeMsg | CancelForward | OtherPacket nat

datatype effect =
    Log LogLevel string
  | NetListen string
  | ListenerClose Listener
  | ConnClose Conn
  | Send Conn PacketType string
  | Splice Conn Conn
  | Go "effect list"
  | HttpHandle string
  | HttpListenAndServe string

text \<open>\<open>Fatal\<close> is \<^verbatim>\<open>logger.FatalF\<close>, which logs and ends the process; \<open>Panic\<close> is a Go
  run-time panic. Both carry the message's format string.\<close>

datatype error = Fatal string | Panic string

section \<open>Formatting a port: \<^verbatim>\<open>fmt.Sprintf(":%d", port)\<close>\<close>

fun string_of_nat :: "nat \<Rightarrow> string" where
  "string_of_nat n =
     (if n < 10 then [char_of (48 + n)]
      else string_of_nat (n div 10) @ [char_of (48 + n mod 10)])"

declare string_of_nat.simps [simp del]

definition Itoa :: "int \<Rightarrow> string" where
  "Itoa i = (if i < 0 then CHR ''-'' # string_of_nat (nat (- i)) else string_of_nat (nat i))"

definition Sprintf_port :: "int \<Rightarrow> string" where
  "Sprintf_port port = CHR '':'' # Itoa port"

section \<open>Correlation store and forward registry\<close>

definition addUserConn :: "Server \<Rightarrow> string \<Rightarrow> Conn \<Rightarrow> Server" where
  "addUserConn s cid conn = s\<lparr>connMap := ConnMap_Add (connMap s) cid conn\<rparr>"

definition delUserConn :: "Server \<Rightarrow> string \<Rightarrow> Server" where
  "delUserConn s cid = s\<lparr>connMap := ConnMap_Del (connMap s) cid\<rparr>"

text \<open>\<^verbatim>\<open>getUserConn\<close> returns what \<^verbatim>\<open>Get\<close> returns, and the server with the store
  \<^verbatim>\<open>Get\<close> leaves.\<close>

definition getUserConn :: "Server \<Rightarrow> string \<Rightarrow> Conn option \<times> Server" where
  "getUserConn s cid =
     (case ConnMap_Get (connMap s) cid of (r, c) \<Rightarrow> (r, s\<lparr>connMap := c\<rparr>))"

definition addForward :: "Server \<Rightarrow> Forward \<Rightarrow> Server" where
  "addForward s f = s\<lparr>forwards := forwards s @ [f]\<rparr>"

text \<open>The loop of \<^verbatim>\<open>delForward\<close>: \<^verbatim>\<open>for i, ff := range s.forwards\<close> stops at the
  first index whose \<^verbatim>\<open>To\<close> equals the target.\<close>

fun delForward_range :: "string \<Rightarrow> Forward list \<Rightarrow> nat \<Rightarrow> (nat \<times> Forward) option" where
  "delForward_range target [] i = None"
| "delForward_range target (ff # rest) i =
     (if To ff = target then Some (i, ff) else delForward_range target rest (Suc i))"

text \<open>At the hit the listener is closed and the slice becomes
  \<^verbatim>\<open>append(s.forwards[:i], s.forwards[i+1:]...)\<close>; without a hit nothing happens.\<close>

definition delForward :: "Server \<Rightarrow> string \<Rightarrow> Server \<times> effect list" where
  "delForward s target =
     (case delForward_range target (forwards s) 0 of
        None \<Rightarrow> (s, [])
      | Some (i, ff) \<Rightarrow>
          (s\<lparr>forwards := take i (forwards s) @ drop (Suc i) (forwards s)\<rparr>,
           [ListenerClose (uListener ff)]))"

definition metric :: "Server \<Rightarrow> Traffic \<Rightarrow> Server" where
  "metric s t = s\<lparr>traffics := traffics s @ [t]\<rparr>"

definition newServer :: "Config \<Rightarrow> Server" where
  "newServer c = \<lparr>cfg = c, connMap = \<lparr>conns = Map.empty\<rparr>, forwards = [], traffics = []\<rparr>"

definition handleCancel :: "Server \<Rightarrow> int \<Rightarrow> Server \<times> effect list" where
  "handleCancel s rPort =
     (case delForward s (Sprintf_port rPort) of
        (s', es) \<Rightarrow> (s', es @ [Log InfoF ''Cancel forward to port %d'']))"

section \<open>What the code calls outside the source files\<close>

text \<open>
  The packages layer, proxy and logger of this repository and the libraries net, os,
  toml, uuid, html/template and net/http are not among the source files. Every call
  into them is a field of the environment, so each theorem holds for whatever they
  compute:
  \<^item> \<open>ParseRegisterPacket\<close>, \<open>ParseExchangePacket\<close>, \<open>ParseCancelPacket\<close> and the
    constant \<open>Len\<close> of package layer;
  \<^item> \<open>net_Listen addr\<close>: \<^verbatim>\<open>net.Listen("tcp", addr)\<close>, an error or a listener;
  \<^item> \<open>proxy_P c u\<close>: the traffic record \<^verbatim>\<open>proxy.P(c, u)\<close> returns;
  \<^item> \<open>os_ReadFile\<close>: an error or the file's contents;
  \<^item> \<open>toml_Unmarshal data\<close>: what \<^verbatim>\<open>toml.Unmarshal(data, &cfg)\<close> leaves in the
    zero-initialised \<^verbatim>\<open>cfg\<close>, and the error it returns, if any;
  \<^item> \<open>template_ParseFS\<close>: the error of parsing the embedded templates, if any;
  \<^item> \<open>http_ListenAndServe addr\<close>: the error \<^verbatim>\<open>http.ListenAndServe\<close> returns with, or
    \<open>None\<close> while it serves (it returns only with an error).
\<close>

record env =
  ParseRegisterPacket :: "byte list \<Rightarrow> int"
  ParseExchangePacket :: "byte list \<Rightarrow> string"
  ParseCancelPacket :: "byte list \<Rightarrow> int"
  Len :: int
  net_Listen :: "string \<Rightarrow> string + Listener"
  proxy_P :: "Conn \<Rightarrow> Conn \<Rightarrow> Traffic"
  os_ReadFile :: "string \<Rightarrow> string + string"
  toml_Unmarshal :: "string \<Rightarrow> Config \<times> string option"
  template_ParseFS :: "string option"
  http_ListenAndServe :: "string \<Rightarrow> string option"

text \<open>A handler's result: the server state it leaves, its effects in order, and the
  error that ended the process, if one did.\<close>

type_synonym result = "Server \<times> effect list \<times> error option"

section \<open>Register: \<^verbatim>\<open>handleForward\<close>\<close>

definition isInvaliedPort :: "int \<Rightarrow> bool" where
  "isInvaliedPort port = (port < 0 \<or> port > 65535)"

text \<open>Go's \<^verbatim>\<open>str[:n]\<close> panics unless \<open>0 \<le> n \<le> len(str)\<close>.\<close>

definition slice_to :: "string \<Rightarrow> int \<Rightarrow> error + string" where
  "slice_to str n =
     (if 0 \<le> n \<and> n \<le> int (length str) then Inr (take (nat n) str)
      else Inl (Panic ''slice bounds out of range''))"

text \<open>The goroutine started for one accepted user connection (lines 160 to 164);
  \<open>uuid\<close> is the string \<^verbatim>\<open>uuid.NewString()\<close> returns to it. The result of \<^verbatim>\<open>Send\<close>
  is discarded by the code.\<close>

definition handleForward_go :: "env \<Rightarrow> Server \<Rightarrow> Conn \<Rightarrow> Conn \<Rightarrow> string \<Rightarrow> result" where
  "handleForward_go E s commuConn userConn uuid =
     (case slice_to uuid (Len E - 1) of
        Inl e \<Rightarrow> (s, [], Some e)
      | Inr cid \<Rightarrow> (addUserConn s cid userConn, [Send commuConn ExchangeMsg cid], None))"

text \<open>The accept loop (lines 154 to 165), over the user connections the listener
  accepts before \<^verbatim>\<open>Accept\<close> fails, each with the UUID its goroutine draws. Every
  goroutine is run where it is started. A panic in one ends the process.\<close>

fun handleForward_accept :: "env \<Rightarrow> Server \<Rightarrow> Conn \<Rightarrow> (Conn \<times> string) list \<Rightarrow> result" where
  "handleForward_accept E s commuConn [] = (s, [], None)"
| "handleForward_accept E s commuConn ((userConn, uuid) # rest) =
     (case handleForward_go E s commuConn userConn uuid of
        (s1, es1, Some e) \<Rightarrow>
          (s1, Log DebugF ''Accept new user connection: %s'' # es1, Some e)
      | (s1, es1, None) \<Rightarrow>
          (case handleForward_accept E s1 commuConn rest of
             (s2, es2, r) \<Rightarrow>
               (s2, Log DebugF ''Accept new user connection: %s'' # es1 @ es2, r)))"

definition handleForward :: "env \<Rightarrow> Server \<Rightarrow> Conn \<Rightarrow> byte list \<Rightarrow> (Conn \<times> string) list \<Rightarrow> result" where
  "handleForward E s commuConn buf accepted =
     (let uPort = ParseRegisterPacket E buf in
      if isInvaliedPort uPort then (s, [Log ErrorF ''Invalid forward to port: %d''], None)
      else
        (case net_Listen E (Sprintf_port uPort) of
           Inl err \<Rightarrow>
             (s, [NetListen (Sprintf_port uPort), Log ErrorF ''Error listening: %v, port: %d''],
              None)
         | Inr uL \<Rightarrow>
             (case handleForward_accept E
                     (addForward s \<lparr>From = RemoteAddr commuConn, To = Sprintf_port uPort,
                                    uListener = uL\<rparr>)
                     commuConn accepted of
                (s', es, r) \<Rightarrow>
                  (s',
                   [NetListen (Sprintf_port uPort), Log InfoF ''Listening on forwarding port %d'']
                   @ es @ (case r of None \<Rightarrow> [ListenerClose uL] | Some e \<Rightarrow> []),
                   r))))"

text \<open>The correlation id the goroutine mints from a UUID when the slice does not
  panic: its first \<open>Len - 1\<close> characters.\<close>

definition mint :: "env \<Rightarrow> string \<Rightarrow> string" where
  "mint E uuid = take (nat (Len E - 1)) uuid"

section \<open>Exchange: \<^verbatim>\<open>handleMessage\<close>\<close>

text \<open>Run without any other goroutine in between: \<^verbatim>\<open>getUserConn\<close>; without an entry
  return; otherwise splice, append the traffic record, and then run the deferred
  \<^verbatim>\<open>delUserConn\<close>.\<close>

definition handleMessage :: "env \<Rightarrow> Server \<Rightarrow> Conn \<Rightarrow> byte list \<Rightarrow> Server \<times> effect list" where
  "handleMessage E s conn buf =
     (let rid = ParseExchangePacket E buf in
      case getUserConn s rid of
        (None, s1) \<Rightarrow> (s1, [])
      | (Some uConn, s1) \<Rightarrow>
          (delUserConn (metric s1 (proxy_P E conn uConn)) rid, [Splice conn uConn]))"

text \<open>
  The same handler as the two atomic steps it takes on the shared state, with the
  splice between them. \<open>Claiming\<close>: the frame is read, \<^verbatim>\<open>getUserConn\<close> is next.
  \<open>Splicing\<close>: \<^verbatim>\<open>proxy.P\<close> is running on the two connections; the next step is its
  return, \<^verbatim>\<open>metric\<close> and the deferred delete. Other goroutines may run between the
  two steps.
\<close>

datatype exchange = Claiming Conn "byte list" | Splicing Conn Conn string | Finished

fun handleMessage_step :: "env \<Rightarrow> Server \<Rightarrow> exchange \<Rightarrow> Server \<times> effect list \<times> exchange" where
  "handleMessage_step E s (Claiming conn buf) =
     (let rid = ParseExchangePacket E buf in
      case getUserConn s rid of
        (None, s1) \<Rightarrow> (s1, [], Finished)
      | (Some uConn, s1) \<Rightarrow> (s1, [Splice conn uConn], Splicing conn uConn rid))"
| "handleMessage_step E s (Splicing conn uConn rid) =
     (delUserConn (metric s (proxy_P E conn uConn)) rid, [], Finished)"
| "handleMessage_step E s Finished = (s, [], Finished)"

text \<open>Two Exchange handlers on the shared state under a schedule: \<open>True\<close> lets the
  first take its next step, \<open>False\<close> the second.\<close>

fun handleMessage_race ::
  "env \<Rightarrow> Server \<Rightarrow> exchange \<Rightarrow> exchange \<Rightarrow> bool list \<Rightarrow> Server \<times> effect list \<times> exchange \<times> exchange" where
  "handleMessage_race E s a b [] = (s, [], a, b)"
| "handleMessage_race E s a b (first # sched) =
     (if first then
        (case handleMessage_step E s a of
           (s1, es1, a1) \<Rightarrow>
             (case handleMessage_race E s1 a1 b sched of
                (s2, es2, a2, b2) \<Rightarrow> (s2, es1 @ es2, a2, b2)))
      else
        (case handleMessage_step E s b of
           (s1, es1, b1) \<Rightarrow>
             (case handleMessage_race E s1 a b1 sched of
                (s2, es2, a2, b2) \<Rightarrow> (s2, es1 @ es2, a2, b2))))"

section \<open>The writers of the server state\<close>

text \<open>Six methods of \<^verbatim>\<open>Server\<close> are the only code that writes the server state:
  \<^verbatim>\<open>addUserConn\<close>, \<^verbatim>\<open>delUserConn\<close> and \<^verbatim>\<open>getUserConn\<close> on the store, \<^verbatim>\<open>addForward\<close>
  and \<^verbatim>\<open>delForward\<close> on the registry, and \<^verbatim>\<open>metric\<close>. Whatever the goroutines of
  the server do to the state between two moments is a list of calls of them.\<close>

datatype server_call =
    CallAddUserConn string Conn
  | CallDelUserConn string
  | CallGetUserConn string
  | CallAddForward Forward
  | CallDelForward string
  | CallMetric Traffic

fun apply_call :: "Server \<Rightarrow> server_call \<Rightarrow> Server" where
  "apply_call s (CallAddUserConn cid conn) = addUserConn s cid conn"
| "apply_call s (CallDelUserConn cid) = delUserConn s cid"
| "apply_call s (CallGetUserConn cid) = snd (getUserConn s cid)"
| "apply_call s (CallAddForward f) = addForward s f"
| "apply_call s (CallDelForward target) = fst (delForward s target)"
| "apply_call s (CallMetric t) = metric s t"

fun apply_calls :: "Server \<Rightarrow> server_call list \<Rightarrow> Server" where
  "apply_calls s [] = s"
| "apply_calls s (c # cs) = apply_calls (apply_call s c) cs"

section \<open>Dispatch on the first frame: \<^verbatim>\<open>handle\<close>\<close>

text \<open>\<open>rd\<close> is what \<^verbatim>\<open>layer.Read(conn)\<close> returned: the packet type, the buffer
  (\<open>None\<close> is \<^verbatim>\<open>nil\<close>) and the error (\<open>None\<close> is \<^verbatim>\<open>nil\<close>); \<^verbatim>\<open>layer.Read\<close> is taken
  to do nothing to the connection but read from it. The test
  \<^verbatim>\<open>err != nil || buf == nil\<close> is the first two branches. The \<^verbatim>\<open>switch\<close> has no
  default case, and no branch calls \<^verbatim>\<open>Close\<close> on the connection.\<close>

definition handle ::
  "env \<Rightarrow> Server \<Rightarrow> Conn \<Rightarrow> PacketType \<times> byte list option \<times> string option
     \<Rightarrow> (Conn \<times> string) list \<Rightarrow> result" where
  "handle E s conn rd accepted =
     (case rd of (packetType, buf, err) \<Rightarrow>
        (case buf of
           None \<Rightarrow> (s, [Log WarnF ''Error reading from connection: %v''], None)
         | Some b \<Rightarrow>
             if err \<noteq> None then (s, [Log WarnF ''Error reading from connection: %v''], None)
             else
               (case packetType of
                  RegisterForward \<Rightarrow> handleForward E s conn b accepted
                | ExchangeMsg \<Rightarrow>
                    (case handleMessage E s conn b of (s', es) \<Rightarrow> (s', es, None))
                | CancelForward \<Rightarrow>
                    (case handleCancel s (ParseCancelPacket E b) of (s', es) \<Rightarrow> (s', es, None))
                | OtherPacket k \<Rightarrow> (s, [], None))))"

section \<open>Start-up: \<^verbatim>\<open>parseConfig\<close>, \<^verbatim>\<open>startAdmin\<close>, \<^verbatim>\<open>Run\<close>, \<^verbatim>\<open>Command\<close>\<close>

text \<open>The error of \<^verbatim>\<open>os.ReadFile\<close> is checked and fatal; the value
  \<^verbatim>\<open>toml.Unmarshal\<close> returns is dropped.\<close>

definition parseConfig :: "env \<Rightarrow> string \<Rightarrow> error + Config" where
  "parseConfig E cfgFile =
     (case os_ReadFile E cfgFile of
        Inl err \<Rightarrow> Inl (Fatal ''Error reading config file: %v'')
      | Inr data \<Rightarrow> Inr (fst (toml_Unmarshal E data)))"

text \<open>\<^verbatim>\<open>startAdmin\<close>, a method of \<^verbatim>\<open>Server\<close> in a source file of another revision
  (it reads a field \<^verbatim>\<open>proxys\<close> that \<^verbatim>\<open>Server\<close> in handle.go does not have, and nothing
  in handle.go calls it): \<^verbatim>\<open>template.Must\<close> panics on a template error; then the two
  routes are registered and \<^verbatim>\<open>http.ListenAndServe(":" + strconv.Itoa(AdminPort), nil)\<close>
  is called. Its body has no test of \<^verbatim>\<open>AdminPort\<close>. The error component is \<open>None\<close>
  while the admin server is serving.\<close>

definition startAdmin :: "env \<Rightarrow> Server \<Rightarrow> effect list \<times> error option" where
  "startAdmin E s =
     (case template_ParseFS E of
        Some err \<Rightarrow> ([], Some (Panic ''template.Must''))
      | None \<Rightarrow>
          (let addr = CHR '':'' # Itoa (AdminPort (cfg s));
               es = [HttpHandle ''/static/'', HttpHandle ''/'', HttpListenAndServe addr]
           in case http_ListenAndServe E addr of
                None \<Rightarrow> (es, None)
              | Some err \<Rightarrow> (es, Some (Fatal ''admin server error: %v''))))"

text \<open>One accepted raw connection of the main listener: the connection, what
  \<^verbatim>\<open>layer.Read\<close> returns on it, and, should it register a forward, what that forward's
  listener accepts.\<close>

type_synonym arrival =
  "Conn \<times> (PacketType \<times> byte list option \<times> string option) \<times> (Conn \<times> string) list"

text \<open>The accept loop of \<^verbatim>\<open>Run\<close> over the connections accepted before \<^verbatim>\<open>Accept\<close>
  fails. \<^verbatim>\<open>go s.handle(conn)\<close> is run to its end where it is started.\<close>

fun Run_accept :: "env \<Rightarrow> Server \<Rightarrow> arrival list \<Rightarrow> result" where
  "Run_accept E s [] = (s, [Log InfoF ''Error accepting: %v''], None)"
| "Run_accept E s ((conn, rd, accepted) # rest) =
     (case handle E s conn rd accepted of
        (s1, es1, Some e) \<Rightarrow> (s1, es1, Some e)
      | (s1, es1, None) \<Rightarrow>
          (case Run_accept E s1 rest of (s2, es2, r) \<Rightarrow> (s2, es1 @ es2, r)))"

text \<open>Modelled from the spec: the method \<^verbatim>\<open>StartAdmin\<close> that \<^verbatim>\<open>Run\<close> starts as a
  goroutine (handle.go, line 95) is not among the source files; the function
  \<^verbatim>\<open>startAdmin\<close> above is spelled differently and belongs to another revision, and
  its caller is not among the source files either. Section 6 of the spec: the
  configuration's \<open>adminPort = 0\<close> disables the administrative surface; otherwise
  the surface is an HTTP endpoint on that port.\<close>

definition StartAdmin :: "Server \<Rightarrow> effect list" where
  "StartAdmin s =
     (if AdminPort (cfg s) = 0 then []
      else [HttpListenAndServe (CHR '':'' # Itoa (AdminPort (cfg s)))])"

text \<open>An effect of the administrative surface: a route registered, an HTTP listener
  started, or a goroutine doing one of these.\<close>

fun admin_effect :: "effect \<Rightarrow> bool" where
  "admin_effect (HttpHandle path) = True"
| "admin_effect (HttpListenAndServe addr) = True"
| "admin_effect (Go es) = list_ex admin_effect es"
| "admin_effect (Log lvl fmt) = False"
| "admin_effect (NetListen addr) = False"
| "admin_effect (ListenerClose l) = False"
| "admin_effect (ConnClose c) = False"
| "admin_effect (Send c pt payload) = False"
| "admin_effect (Splice c u) = False"

text \<open>\<^verbatim>\<open>Run\<close>. Its first statement is \<^verbatim>\<open>go s.StartAdmin()\<close>; \<open>Go\<close> carries what that
  goroutine does. A failed bind of the main socket is fatal. The deferred
  \<^verbatim>\<open>listener.Close()\<close> runs when \<^verbatim>\<open>Run\<close> returns.\<close>

definition Run :: "env \<Rightarrow> Server \<Rightarrow> arrival list \<Rightarrow> result" where
  "Run E s arrivals =
     (let addr = Sprintf_port (Port (cfg s)) in
      case net_Listen E addr of
        Inl err \<Rightarrow>
          (s, [Go (StartAdmin s), NetListen addr], Some (Fatal ''Error listening: %v''))
      | Inr listener \<Rightarrow>
          (case Run_accept E s arrivals of
             (s', es, r) \<Rightarrow>
               (s',
                [Go (StartAdmin s), NetListen addr, Log InfoF ''Server listen on port %d'']
                @ es @ (case r of None \<Rightarrow> [ListenerClose listener] | Some e \<Rightarrow> []),
                r)))"

text \<open>The \<^verbatim>\<open>Run\<close> closure of \<^verbatim>\<open>Command\<close>: with a config file the configuration is
  parsed from it, otherwise it is the flags' record, whose defaults are port 8910 and
  admin port 0.\<close>

definition flagCfg_default :: Config where
  "flagCfg_default = \<lparr>Port = 8910, AdminPort = 0\<rparr>"

definition Command_Run :: "env \<Rightarrow> string \<Rightarrow> Config \<Rightarrow> arrival list \<Rightarrow> error + result" where
  "Command_Run E cfgFile flagCfg arrivals =
     (if cfgFile \<noteq> [] then
        (case parseConfig E cfgFile of
           Inl e \<Rightarrow> Inl e
         | Inr c \<Rightarrow> Inr (Run E (newServer c) arrivals))
      else Inr (Run E (newServer flagCfg) arrivals))"

section \<open>A concrete deployment\<close>

text \<open>
  One environment and a few server states on which the handlers are evaluated below.
  Ports travel big-endian and ids as ASCII; binding port 80 fails; the only config
  file, \<^verbatim>\<open>pipe.toml\<close>, is readable and is not valid TOML; \<open>Len\<close> is 9, so an id is
  the first 8 characters of a UUID.
\<close>

definition decode_port :: "byte list \<Rightarrow> int" where
  "decode_port buf = foldl (\<lambda>a b. a * 256 + uint b) 0 buf"

definition decode_id :: "byte list \<Rightarrow> string" where
  "decode_id buf = map (\<lambda>b. char_of (unat b)) buf"

definition env_ex :: env where
  "env_ex =
     \<lparr>ParseRegisterPacket = decode_port,
      ParseExchangePacket = decode_id,
      ParseCancelPacket = decode_port,
      Len = 9,
      net_Listen = (\<lambda>addr. if addr = '':80'' then Inl ''bind: address already in use'' else Inr 7),
      proxy_P = (\<lambda>c u. \<lparr>bytesAtoB = 5, bytesBtoA = 0\<rparr>),
      os_ReadFile = (\<lambda>f. if f = ''pipe.toml'' then Inr ''port = ='' else Inl ''no such file''),
      toml_Unmarshal =
        (\<lambda>data. if data = ''port = 9000'' then (\<lparr>Port = 9000, AdminPort = 0\<rparr>, None)
                 else (\<lparr>Port = 0, AdminPort = 0\<rparr>, Some ''toml: expected value'')),
      template_ParseFS = None,
      http_ListenAndServe = (\<lambda>addr. None)\<rparr>"

definition ctl_ex :: Conn where
  "ctl_ex = \<lparr>fd = 3, RemoteAddr = ''10.0.0.2:51000''\<rparr>"

definition claim1_ex :: Conn where
  "claim1_ex = \<lparr>fd = 4, RemoteAddr = ''10.0.0.2:51001''\<rparr>"

definition claim2_ex :: Conn where
  "claim2_ex = \<lparr>fd = 5, RemoteAddr = ''10.0.0.2:51002''\<rparr>"

definition user1_ex :: Conn where
  "user1_ex = \<lparr>fd = 8, RemoteAddr = ''198.51.100.7:40000''\<rparr>"

definition user2_ex :: Conn where
  "user2_ex = \<lparr>fd = 9, RemoteAddr = ''198.51.100.8:40000''\<rparr>"

definition fwd_a :: Forward where
  "fwd_a = \<lparr>From = ''10.0.0.2:51000'', To = '':0'', uListener = 11\<rparr>"

definition fwd_b :: Forward where
  "fwd_b = \<lparr>From = ''10.0.0.3:51000'', To = '':9001'', uListener = 12\<rparr>"

definition fwd_c :: Forward where
  "fwd_c = \<lparr>From = ''10.0.0.4:51000'', To = '':0'', uListener = 13\<rparr>"

definition srv_ex :: Server where
  "srv_ex = \<lparr>cfg = flagCfg_default, connMap = \<lparr>conns = Map.empty\<rparr>,
              forwards = [fwd_a, fwd_b, fwd_c], traffics = []\<rparr>"

definition srv_pending :: Server where
  "srv_pending = \<lparr>cfg = flagCfg_default, connMap = \<lparr>conns = [''abcdefgh'' \<mapsto> user1_ex]\<rparr>,
                   forwards = [fwd_b], traffics = []\<rparr>"

definition srv_taken :: Server where
  "srv_taken = \<lparr>cfg = flagCfg_default, connMap = \<lparr>conns = Map.empty\<rparr>,
                 forwards = [fwd_b], traffics = []\<rparr>"

text \<open>Calls that follow a claim of \<open>abcdefgh\<close>: the claim's own traffic record and
  deferred delete, then a put of another id and a cancelled forward.\<close>

definition calls_ex :: "server_call list" where
  "calls_ex =
     [CallMetric \<lparr>bytesAtoB = 5, bytesBtoA = 0\<rparr>,
      CallDelUserConn ''abcdefgh'',
      CallAddUserConn ''zzzzzzzz'' user2_ex,
      CallDelForward '':9001'']"

text \<open>The states of a server on which the id \<open>1b4e28ba\<close> is put, claimed, put again
  and claimed again.\<close>

definition srv_put1 :: Server where
  "srv_put1 = \<lparr>cfg = flagCfg_default, connMap = \<lparr>conns = [''1b4e28ba'' \<mapsto> user1_ex]\<rparr>,
                forwards = [], traffics = []\<rparr>"

definition srv_done1 :: Server where
  "srv_done1 = \<lparr>cfg = flagCfg_default, connMap = \<lparr>conns = Map.empty\<rparr>,
                 forwards = [], traffics = [\<lparr>bytesAtoB = 5, bytesBtoA = 0\<rparr>]\<rparr>"

definition srv_put2 :: Server where
  "srv_put2 = \<lparr>cfg = flagCfg_default, connMap = \<lparr>conns = [''1b4e28ba'' \<mapsto> user2_ex]\<rparr>,
                forwards = [], traffics = [\<lparr>bytesAtoB = 5, bytesBtoA = 0\<rparr>]\<rparr>"

definition srv_done2 :: Server where
  "srv_done2 = \<lparr>cfg = flagCfg_default, connMap = \<lparr>conns = Map.empty\<rparr>,
                 forwards = [],
                 traffics = [\<lparr>bytesAtoB = 5, bytesBtoA = 0\<rparr>, \<lparr>bytesAtoB = 5, bytesBtoA = 0\<rparr>]\<rparr>"

text \<open>Three UUIDs, the first two with the same first 8 characters, and the states a
  forward on port 9000 leaves after two accepted user connections.\<close>

definition uuid_a :: string where
  "uuid_a = ''1b4e28ba-2fa1-41d2-883f-0016d3cca427''"

definition uuid_b :: string where
  "uuid_b = ''1b4e28ba-9c3e-4f65-a1b7-55d0e2f1c8aa''"





section \<open>Facts about the registry scan\<close>

lemma delForward_range_None:
  "(delForward_range target fs i = None) = (target \<notin> To ` set fs)"
  by (induction fs arbitrary: i) auto

lemma delForward_range_first:
  "To f = target \<Longrightarrow> target \<notin> To ` set pre \<Longrightarrow>
   delForward_range target (pre @ f # post) i = Some (i + length pre, f)"
  by (induction pre arbitrary: i) auto

lemma delForward_miss:
  assumes "target \<notin> To ` set (forwards s)"
  shows "delForward s target = (s, [])"
proof -
  from assms have "delForward_range target (forwards s) 0 = None"
    by (simp add: delForward_range_None)
  then show ?thesis by (simp add: delForward_def)
qed

lemma delForward_hit:
  assumes "forwards s = pre @ f # post" and "To f = target" and "target \<notin> To ` set pre"
  shows "delForward s target = (s\<lparr>forwards := pre @ post\<rparr>, [ListenerClose (uListener f)])"
proof -
  from assms(2,3) have "delForward_range target (pre @ f # post) 0 = Some (0 + length pre, f)"
    by (rule delForward_range_first)
  with assms(1) show ?thesis by (simp add: delForward_def)
qed

lemma first_match_split:
  "target \<in> To ` set fs \<Longrightarrow>
   \<exists>pre f post. fs = pre @ f # post \<and> To f = target \<and> target \<notin> To ` set pre"
proof (induction fs)
  case Nil
  then show ?case by simp
next
  case (Cons g fs)
  show ?case
  proof (cases "To g = target")
    case True
    then have "g # fs = [] @ g # fs \<and> To g = target \<and> target \<notin> To ` set []" by simp
    then show ?thesis by (intro exI)
  next
    case False
    with Cons.prems have "target \<in> To ` set fs" by auto
    with Cons.IH obtain pre f post
      where "fs = pre @ f # post" "To f = target" "target \<notin> To ` set pre" by blast
    with False have "g # fs = (g # pre) @ f # post \<and> To f = target \<and> target \<notin> To ` set (g # pre)"
      by auto
    then show ?thesis by (intro exI)
  qed
qed

subsection \<open>Evaluating the formatting and the decoders\<close>

lemma char_of_digits:
  "char_of (48::nat) = CHR ''0''" "char_of (49::nat) = CHR ''1''" "char_of (50::nat) = CHR ''2''"
  "char_of (51::nat) = CHR ''3''" "char_of (52::nat) = CHR ''4''" "char_of (53::nat) = CHR ''5''"
  "char_of (54::nat) = CHR ''6''" "char_of (55::nat) = CHR ''7''" "char_of (56::nat) = CHR ''8''"
  "char_of (57::nat) = CHR ''9''"
  by (simp_all add: char_of_def bit_0)

lemmas Sprintf_port_eval = Sprintf_port_def Itoa_def string_of_nat.simps char_of_digits

lemma Sprintf_port_0: "Sprintf_port 0 = '':0''" by (simp add: Sprintf_port_eval)
lemma Sprintf_port_80: "Sprintf_port 80 = '':80''" by (simp add: Sprintf_port_eval)
lemma Sprintf_port_8910: "Sprintf_port 8910 = '':8910''" by (simp add: Sprintf_port_eval)
lemma Sprintf_port_9001: "Sprintf_port 9001 = '':9001''" by (simp add: Sprintf_port_eval)
lemma Sprintf_port_9003: "Sprintf_port 9003 = '':9003''" by (simp add: Sprintf_port_eval)
lemma Itoa_0: "Itoa 0 = ''0''" by (simp add: Sprintf_port_eval)
lemma decode_port_80: "decode_port [80] = 80" by (simp add: decode_port_def)
lemma decode_port_9001: "decode_port [35, 41] = 9001" by (simp add: decode_port_def)
lemma decode_port_9003: "decode_port [35, 43] = 9003" by (simp add: decode_port_def)
lemma decode_port_70000: "decode_port [1, 17, 112] = 70000" by (simp add: decode_port_def)
lemma decode_id_abcdefgh:
  "decode_id [97, 98, 99, 100, 101, 102, 103, 104] = ''abcdefgh''"
  by (simp add: decode_id_def char_of_def bit_0)
lemma decode_id_1b4e28ba:
  "decode_id [49, 98, 52, 101, 50, 56, 98, 97] = ''1b4e28ba''"
  by (simp add: decode_id_def char_of_def bit_0 bit_Suc)
lemma decode_id_zzzzzzzz:
  "decode_id [122, 122, 122, 122, 122, 122, 122, 122] = ''zzzzzzzz''"
  by (simp add: decode_id_def char_of_def bit_0)

section \<open>Cancel\<close>

text \<open>
  C5. A Cancel whose target matches a forward of the registry closes the listener of
  the first such forward and removes exactly that forward: the forwards before it
  and after it stay, in their order, and nothing else of the server state changes.
  The only other effect is the info log.
\<close>

theorem cancel_removes_first_matching_forward:
  assumes "Sprintf_port rPort \<in> To ` set (forwards s)"
  shows "\<exists>pre f post.
           forwards s = pre @ f # post \<and> To f = Sprintf_port rPort \<and>
           Sprintf_port rPort \<notin> To ` set pre \<and>
           handleCancel s rPort =
             (s\<lparr>forwards := pre @ post\<rparr>,
              [ListenerClose (uListener f), Log InfoF ''Cancel forward to port %d''])"
proof -
  from first_match_split [OF assms] obtain pre f post
    where sp: "forwards s = pre @ f # post" "To f = Sprintf_port rPort"
              "Sprintf_port rPort \<notin> To ` set pre" by blast
  have "handleCancel s rPort =
          (s\<lparr>forwards := pre @ post\<rparr>,
           [ListenerClose (uListener f), Log InfoF ''Cancel forward to port %d''])"
    by (simp add: handleCancel_def delForward_hit [OF sp])
  with sp show ?thesis by (intro exI conjI)
qed

theorem cancel_removes_first_matching_forward_witness:
  "Sprintf_port 0 \<in> To ` set (forwards srv_ex) \<and>
   handleCancel srv_ex 0 =
     (srv_ex\<lparr>forwards := [fwd_b, fwd_c]\<rparr>,
      [ListenerClose 11, Log InfoF ''Cancel forward to port %d''])"
proof -
  have h: "Sprintf_port 0 \<in> To ` set (forwards srv_ex)"
    by (simp add: Sprintf_port_0 srv_ex_def fwd_a_def)
  have e: "handleCancel srv_ex 0 =
     (srv_ex\<lparr>forwards := [fwd_b, fwd_c]\<rparr>,
      [ListenerClose 11, Log InfoF ''Cancel forward to port %d''])"
    by (simp add: handleCancel_def delForward_def Sprintf_port_0 srv_ex_def fwd_a_def)
  from cancel_removes_first_matching_forward [OF h] h e show ?thesis by simp
qed

text \<open>
  C6. A Cancel whose target matches no forward of the registry leaves the whole
  server state as it was, closes no listener and raises nothing; it only writes the
  info log.
\<close>

theorem cancel_unknown_target_is_noop:
  assumes "Sprintf_port rPort \<notin> To ` set (forwards s)"
  shows "handleCancel s rPort = (s, [Log InfoF ''Cancel forward to port %d''])"
  by (simp add: handleCancel_def delForward_miss [OF assms])

theorem cancel_unknown_target_is_noop_witness:
  "Sprintf_port 9003 \<notin> To ` set (forwards srv_ex) \<and>
   handleCancel srv_ex 9003 = (srv_ex, [Log InfoF ''Cancel forward to port %d''])"
proof -
  have h: "Sprintf_port 9003 \<notin> To ` set (forwards srv_ex)"
    by (simp add: Sprintf_port_9003 srv_ex_def fwd_a_def fwd_b_def fwd_c_def)
  from cancel_unknown_target_is_noop [OF h] h show ?thesis by simp
qed

section \<open>Register rejected\<close>

text \<open>
  C4, as the code has it. A Register whose port is outside 0..65535, or whose
  listener cannot be bound, is rejected: the handler returns with the server state
  unchanged (no forward, no correlation entry), after one error log and at most one
  bind attempt, and does nothing more with the requesting connection. It does not
  close that connection.
\<close>

theorem register_rejected_leaves_state:
  assumes "isInvaliedPort (ParseRegisterPacket E buf) \<or>
           (\<exists>err. net_Listen E (Sprintf_port (ParseRegisterPacket E buf)) = Inl err)"
  shows "handleForward E s commuConn buf accepted =
           (s,
            if isInvaliedPort (ParseRegisterPacket E buf)
            then [Log ErrorF ''Invalid forward to port: %d'']
            else [NetListen (Sprintf_port (ParseRegisterPacket E buf)),
                  Log ErrorF ''Error listening: %v, port: %d''],
            None)"
proof (cases "isInvaliedPort (ParseRegisterPacket E buf)")
  case True
  then show ?thesis by (simp add: handleForward_def Let_def)
next
  case False
  with assms obtain err
    where "net_Listen E (Sprintf_port (ParseRegisterPacket E buf)) = Inl err" by blast
  with False show ?thesis by (simp add: handleForward_def Let_def)
qed

theorem register_rejected_leaves_state_witness:
  "isInvaliedPort (ParseRegisterPacket env_ex [1, 17, 112]) \<and>
   handleForward env_ex srv_ex ctl_ex [1, 17, 112] [(user1_ex, ''u'')] =
     (srv_ex, [Log ErrorF ''Invalid forward to port: %d''], None) \<and>
   \<not> isInvaliedPort (ParseRegisterPacket env_ex [80]) \<and>
   net_Listen env_ex (Sprintf_port (ParseRegisterPacket env_ex [80])) =
     Inl ''bind: address already in use'' \<and>
   handleForward env_ex srv_ex ctl_ex [80] [(user1_ex, ''u'')] =
     (srv_ex, [NetListen '':80'', Log ErrorF ''Error listening: %v, port: %d''], None)"
proof -
  have a: "isInvaliedPort (ParseRegisterPacket env_ex [1, 17, 112])"
    by (simp add: env_ex_def decode_port_70000 isInvaliedPort_def)
  have b: "\<not> isInvaliedPort (ParseRegisterPacket env_ex [80])"
    by (simp add: env_ex_def decode_port_80 isInvaliedPort_def)
  have c: "net_Listen env_ex (Sprintf_port (ParseRegisterPacket env_ex [80])) =
             Inl ''bind: address already in use''"
    by (simp add: env_ex_def decode_port_80 Sprintf_port_80)
  have d: "Sprintf_port (ParseRegisterPacket env_ex [80]) = '':80''"
    by (simp add: env_ex_def decode_port_80 Sprintf_port_80)
  from a have a': "isInvaliedPort (ParseRegisterPacket env_ex [1, 17, 112]) \<or>
      (\<exists>err. net_Listen env_ex (Sprintf_port (ParseRegisterPacket env_ex [1, 17, 112])) = Inl err)"
    by (rule disjI1)
  from c have c': "isInvaliedPort (ParseRegisterPacket env_ex [80]) \<or>
      (\<exists>err. net_Listen env_ex (Sprintf_port (ParseRegisterPacket env_ex [80])) = Inl err)"
    by blast
  from register_rejected_leaves_state [OF a', of srv_ex ctl_ex "[(user1_ex, ''u'')]"]
       register_rejected_leaves_state [OF c', of srv_ex ctl_ex "[(user1_ex, ''u'')]"]
       a b c d
  show ?thesis by simp
qed

text \<open>C4 as stated fails where it has the requesting connection dropped: neither for
  an invalid port nor for a failed bind do the handler's effects hold a close of the
  connection, which stays open.\<close>

theorem register_rejected_not_closed:
  "isInvaliedPort (ParseRegisterPacket env_ex [1, 17, 112]) \<and>
   ConnClose ctl_ex \<notin>
     set (fst (snd (handleForward env_ex srv_ex ctl_ex [1, 17, 112] []))) \<and>
   net_Listen env_ex (Sprintf_port (ParseRegisterPacket env_ex [80])) =
     Inl ''bind: address already in use'' \<and>
   ConnClose ctl_ex \<notin>
     set (fst (snd (handleForward env_ex srv_ex ctl_ex [80] [])))"
  by (simp add: handleForward_def Let_def isInvaliedPort_def env_ex_def decode_port_70000
      decode_port_80 Sprintf_port_80)

section \<open>First frame\<close>

text \<open>
  C7, as the code has it. When the first frame cannot be read (an error, or a nil
  buffer), the handler logs a warning and returns: nothing is dispatched or retried,
  the server state is unchanged and the process goes on. The handler does not close
  the connection.
\<close>

theorem unreadable_first_frame_returns:
  assumes "err \<noteq> None \<or> buf = None"
  shows "handle E s conn (packetType, buf, err) accepted =
           (s, [Log WarnF ''Error reading from connection: %v''], None)"
proof (cases buf)
  case None
  then show ?thesis by (simp add: handle_def)
next
  case (Some b)
  with assms have "err \<noteq> None" by simp
  with Some show ?thesis by (simp add: handle_def)
qed

theorem unreadable_first_frame_returns_witness:
  "handle env_ex srv_ex claim1_ex (ExchangeMsg, None, Some ''EOF'') [] =
     (srv_ex, [Log WarnF ''Error reading from connection: %v''], None) \<and>
   handle env_ex srv_ex claim1_ex (ExchangeMsg, Some [], Some ''unexpected EOF'') [] =
     (srv_ex, [Log WarnF ''Error reading from connection: %v''], None)"
proof -
  have a: "Some ''EOF'' \<noteq> None \<or> (None :: byte list option) = None" by simp
  have b: "Some ''unexpected EOF'' \<noteq> None \<or> Some ([] :: byte list) = None" by simp
  from unreadable_first_frame_returns [OF a] unreadable_first_frame_returns [OF b]
  show ?thesis by simp
qed

text \<open>C7 as stated fails: on a read error the handler's effects hold no close of the
  connection.\<close>

theorem unreadable_first_frame_not_closed:
  "ConnClose claim1_ex \<notin>
     set (fst (snd (handle env_ex srv_ex claim1_ex (ExchangeMsg, None, Some ''EOF'') [])))"
  by (simp add: handle_def)

text \<open>
  C10. A first frame that is read without error and whose type is none of Register,
  Exchange and Cancel makes the handler do nothing: the state is unchanged and there
  is no effect at all (no frame sent, no connection closed).
\<close>

theorem unknown_packet_type_is_ignored:
  "handle E s conn (OtherPacket k, Some b, None) accepted = (s, [], None)"
  by (simp add: handle_def)

section \<open>Exchange\<close>

text \<open>What \<^verbatim>\<open>getUserConn\<close> returns and what it leaves.\<close>

lemma getUserConn_value: "fst (getUserConn s k) = conns (connMap s) k"
  by (simp add: getUserConn_def ConnMap_Get_def)

lemma getUserConn_store:
  "conns (connMap (snd (getUserConn s k))) = (conns (connMap s))(k := None)"
  by (simp add: getUserConn_def ConnMap_Get_def)

lemma getUserConn_absent:
  assumes "fst (getUserConn s k) = None"
  shows "getUserConn s k = (None, s)"
proof -
  from assms have "conns (connMap s) k = None" by (simp add: getUserConn_value)
  then have "(conns (connMap s))(k := None) = conns (connMap s)" by (simp add: fun_upd_idem)
  then show ?thesis using assms by (simp add: getUserConn_def ConnMap_Get_def)
qed

text \<open>
  C3, as the code has it. An Exchange frame whose id has no pending entry makes the
  handler return at once: the correlation store and the rest of the state are
  unchanged and there is no effect; in particular the claiming connection is not
  closed by the handler.
\<close>

theorem unknown_id_claim_returns:
  assumes "fst (getUserConn s (ParseExchangePacket E buf)) = None"
  shows "handleMessage E s conn buf = (s, []) \<and>
         handle E s conn (ExchangeMsg, Some buf, None) accepted = (s, [], None)"
proof -
  from getUserConn_absent [OF assms] have "handleMessage E s conn buf = (s, [])"
    by (simp add: handleMessage_def Let_def)
  then show ?thesis by (simp add: handle_def)
qed

theorem unknown_id_claim_returns_witness:
  "fst (getUserConn srv_pending
     (ParseExchangePacket env_ex [122, 122, 122, 122, 122, 122, 122, 122])) = None \<and>
   handleMessage env_ex srv_pending claim1_ex [122, 122, 122, 122, 122, 122, 122, 122] =
     (srv_pending, []) \<and>
   handle env_ex srv_pending claim1_ex
     (ExchangeMsg, Some [122, 122, 122, 122, 122, 122, 122, 122], None) [] =
     (srv_pending, [], None)"
proof -
  have h: "fst (getUserConn srv_pending
     (ParseExchangePacket env_ex [122, 122, 122, 122, 122, 122, 122, 122])) = None"
    by (simp add: env_ex_def decode_id_zzzzzzzz getUserConn_value srv_pending_def)
  from unknown_id_claim_returns [OF h] h show ?thesis by simp
qed

text \<open>C3 as stated fails: for an id without an entry the handler's effects hold no
  close of the claiming connection.\<close>

theorem unknown_id_claim_not_closed:
  "fst (getUserConn srv_pending
     (ParseExchangePacket env_ex [122, 122, 122, 122, 122, 122, 122, 122])) = None \<and>
   ConnClose claim1_ex \<notin>
     set (fst (snd (handle env_ex srv_pending claim1_ex
       (ExchangeMsg, Some [122, 122, 122, 122, 122, 122, 122, 122], None) [])))"
  by (simp add: handle_def handleMessage_def env_ex_def decode_id_zzzzzzzz getUserConn_def
      ConnMap_Get_def srv_pending_def)

text \<open>The handler run in one piece is its two steps run one after the other.\<close>

lemma handleMessage_as_steps:
  "handleMessage E s conn buf =
     (case handleMessage_step E s (Claiming conn buf) of
        (s1, es1, t1) \<Rightarrow>
          (case handleMessage_step E s1 t1 of (s2, es2, t2) \<Rightarrow> (s2, es1 @ es2)))"
  by (simp add: handleMessage_def Let_def split: option.splits prod.splits)

text \<open>Of the six writers of the state only \<^verbatim>\<open>addUserConn\<close> can give an id an entry:
  an id that has none keeps having none through any calls that do not add it.\<close>

lemma server_call_keeps_absent:
  assumes "conns (connMap s) rid = None" and "\<forall>c. call \<noteq> CallAddUserConn rid c"
  shows "conns (connMap (apply_call s call)) rid = None"
proof (cases call)
  case (CallAddUserConn cid c)
  with assms(2) have "cid \<noteq> rid" by auto
  with assms(1) CallAddUserConn show ?thesis
    by (simp add: addUserConn_def ConnMap_Add_def)
next
  case (CallDelUserConn cid)
  with assms(1) show ?thesis by (simp add: delUserConn_def ConnMap_Del_def)
next
  case (CallGetUserConn cid)
  with assms(1) show ?thesis by (simp add: getUserConn_store)
next
  case (CallAddForward f)
  with assms(1) show ?thesis by (simp add: addForward_def)
next
  case (CallDelForward target)
  with assms(1) show ?thesis by (simp add: delForward_def split: option.splits prod.splits)
next
  case (CallMetric t)
  with assms(1) show ?thesis by (simp add: metric_def)
qed

lemma apply_calls_keep_absent:
  assumes "conns (connMap s) rid = None" and "\<forall>c. CallAddUserConn rid c \<notin> set calls"
  shows "conns (connMap (apply_calls s calls)) rid = None"
  using assms
proof (induction calls arbitrary: s)
  case Nil
  then show ?case by simp
next
  case (Cons call calls)
  from Cons.prems(2) have here: "\<forall>c. call \<noteq> CallAddUserConn rid c" by auto
  from Cons.prems(2) have later: "\<forall>c. CallAddUserConn rid c \<notin> set calls" by auto
  from server_call_keeps_absent [OF Cons.prems(1) here]
  have "conns (connMap (apply_call s call)) rid = None" .
  from Cons.IH [OF this later] show ?case by simp
qed

text \<open>Two claims of one id that race for it: whichever takes its step first is handed
  the connection, the other is handed nothing.\<close>

lemma race_hands_connection_to_one:
  assumes found: "fst (getUserConn s rid) = Some uConn"
    and rid: "rid = ParseExchangePacket E buf"
  shows "handleMessage_race E s (Claiming c1 buf) (Claiming c2 buf) [True, False] =
           (snd (getUserConn s rid), [Splice c1 uConn], Splicing c1 uConn rid, Finished) \<and>
         handleMessage_race E s (Claiming c1 buf) (Claiming c2 buf) [False, True] =
           (snd (getUserConn s rid), [Splice c2 uConn], Finished, Splicing c2 uConn rid)"
proof -
  obtain r s1 where "getUserConn s rid = (r, s1)" by (cases "getUserConn s rid")
  with found have pair: "getUserConn s rid = (Some uConn, s1)" by simp
  then have s1: "snd (getUserConn s rid) = s1" by simp
  from getUserConn_store [of s rid] s1 have "conns (connMap s1) rid = None" by simp
  then have "fst (getUserConn s1 rid) = None" by (simp add: getUserConn_value)
  from getUserConn_absent [OF this] have gone: "getUserConn s1 rid = (None, s1)" .
  from pair gone rid show ?thesis unfolding s1 by (simp add: Let_def)
qed

text \<open>
  C1, as the code has it. A successful Exchange claim removes the id's entry from the
  correlation store in the same atomic step that retrieves the connection, so the
  entry is absent from the store when the two connections are handed to the splice,
  and a second claim of the id taking its step right then is handed nothing.
  Whatever calls of the state's writers follow, a later take of the same id returns
  not found as long as none of them puts the id into the store again.
\<close>

theorem exchange_claim_takes_entry:
  assumes found: "fst (getUserConn s rid) = Some uConn"
    and rid: "rid = ParseExchangePacket E buf"
    and quiet: "\<forall>c. CallAddUserConn rid c \<notin> set calls"
  shows "handleMessage_step E s (Claiming conn buf) =
           (snd (getUserConn s rid), [Splice conn uConn], Splicing conn uConn rid) \<and>
         conns (connMap (snd (getUserConn s rid))) = (conns (connMap s))(rid := None) \<and>
         handleMessage_step E (snd (getUserConn s rid)) (Claiming conn' buf) =
           (snd (getUserConn s rid), [], Finished) \<and>
         fst (getUserConn (apply_calls (snd (getUserConn s rid)) calls) rid) = None \<and>
         handleMessage E (apply_calls (snd (getUserConn s rid)) calls) conn' buf =
           (apply_calls (snd (getUserConn s rid)) calls, [])"
proof -
  obtain r s1 where "getUserConn s rid = (r, s1)" by (cases "getUserConn s rid")
  with found have pair: "getUserConn s rid = (Some uConn, s1)" by simp
  then have s1: "snd (getUserConn s rid) = s1" by simp
  from pair rid have a: "handleMessage_step E s (Claiming conn buf) =
           (s1, [Splice conn uConn], Splicing conn uConn rid)"
    by (simp add: Let_def)
  from getUserConn_store [of s rid] s1
  have b: "conns (connMap s1) = (conns (connMap s))(rid := None)" by simp
  from b have gone: "conns (connMap s1) rid = None" by simp
  then have "fst (getUserConn s1 rid) = None" by (simp add: getUserConn_value)
  from getUserConn_absent [OF this] rid
  have c: "handleMessage_step E s1 (Claiming conn' buf) = (s1, [], Finished)"
    by (simp add: Let_def)
  from apply_calls_keep_absent [OF gone quiet]
  have d: "fst (getUserConn (apply_calls s1 calls) rid) = None"
    by (simp add: getUserConn_value)
  from getUserConn_absent [OF d] rid
  have e: "handleMessage E (apply_calls s1 calls) conn' buf = (apply_calls s1 calls, [])"
    by (simp add: handleMessage_def Let_def)
  from a b c d e show ?thesis unfolding s1 by (intro conjI)
qed

lemma env_ex_exchange_id:
  "ParseExchangePacket env_ex [97, 98, 99, 100, 101, 102, 103, 104] = ''abcdefgh''"
  by (simp add: env_ex_def decode_id_abcdefgh)

lemma env_ex_exchange_hex_id:
  "ParseExchangePacket env_ex [49, 98, 52, 101, 50, 56, 98, 97] = ''1b4e28ba''"
  by (simp add: env_ex_def decode_id_1b4e28ba)

lemma srv_pending_take: "getUserConn srv_pending ''abcdefgh'' = (Some user1_ex, srv_taken)"
  by (simp add: getUserConn_def ConnMap_Get_def srv_pending_def srv_taken_def)

theorem exchange_claim_takes_entry_witness:
  "fst (getUserConn srv_pending ''abcdefgh'') = Some user1_ex \<and>
   handleMessage_step env_ex srv_pending
       (Claiming claim1_ex [97, 98, 99, 100, 101, 102, 103, 104]) =
     (srv_taken, [Splice claim1_ex user1_ex], Splicing claim1_ex user1_ex ''abcdefgh'') \<and>
   conns (connMap srv_taken) ''abcdefgh'' = None \<and>
   handleMessage_step env_ex srv_taken
       (Claiming claim2_ex [97, 98, 99, 100, 101, 102, 103, 104]) =
     (srv_taken, [], Finished) \<and>
   fst (getUserConn (apply_calls srv_taken calls_ex) ''abcdefgh'') = None \<and>
   handleMessage env_ex (apply_calls srv_taken calls_ex) claim2_ex
       [97, 98, 99, 100, 101, 102, 103, 104] =
     (apply_calls srv_taken calls_ex, [])"
proof -
  have found: "fst (getUserConn srv_pending ''abcdefgh'') = Some user1_ex"
    by (simp add: srv_pending_take)
  have quiet: "\<forall>c. CallAddUserConn ''abcdefgh'' c \<notin> set calls_ex"
    by (simp add: calls_ex_def)
  from exchange_claim_takes_entry
         [OF found env_ex_exchange_id [symmetric] quiet, of claim1_ex claim2_ex]
       found
  show ?thesis by (simp add: srv_pending_take)
qed

text \<open>C1 as stated fails where it has any later take of the same id return not found:
  the id is cut from a UUID with no check against earlier ids, so after a claim of
  the id a second inbound connection can be put under the same id, and the next take
  of that id succeeds. The id is claimed twice.\<close>

theorem exchange_id_claimed_again_after_put:
  "handleForward_go env_ex (newServer flagCfg_default) ctl_ex user1_ex uuid_a =
     (srv_put1, [Send ctl_ex ExchangeMsg ''1b4e28ba''], None) \<and>
   handleMessage env_ex srv_put1 claim1_ex [49, 98, 52, 101, 50, 56, 98, 97] =
     (srv_done1, [Splice claim1_ex user1_ex]) \<and>
   handleForward_go env_ex srv_done1 ctl_ex user2_ex uuid_b =
     (srv_put2, [Send ctl_ex ExchangeMsg ''1b4e28ba''], None) \<and>
   fst (getUserConn srv_put2 ''1b4e28ba'') = Some user2_ex \<and>
   handleMessage env_ex srv_put2 claim2_ex [49, 98, 52, 101, 50, 56, 98, 97] =
     (srv_done2, [Splice claim2_ex user2_ex])"
  by (simp add: handleForward_go_def slice_to_def handleMessage_def Let_def
      env_ex_exchange_hex_id getUserConn_def ConnMap_Get_def addUserConn_def ConnMap_Add_def
      delUserConn_def ConnMap_Del_def metric_def newServer_def uuid_a_def uuid_b_def
      srv_put1_def srv_done1_def srv_put2_def srv_done2_def env_ex_def decode_id_1b4e28ba)

section \<open>Register accepted: the accept loop\<close>




lemma fold_add_traffics:
  "traffics (fold (\<lambda>(c, u) s. addUserConn s (mint E u) c) accepted s) = traffics s"
  by (induction accepted arbitrary: s) (auto simp add: addUserConn_def)

lemma fold_add_cfg:
  "cfg (fold (\<lambda>(c, u) s. addUserConn s (mint E u) c) accepted s) = cfg s"
  by (induction accepted arbitrary: s) (auto simp add: addUserConn_def)










lemma mint_uuid_b: "mint env_ex uuid_b = ''1b4e28ba''"
  by (simp add: mint_def env_ex_def uuid_b_def)









section \<open>Start-up\<close>

text \<open>\<^verbatim>\<open>startAdmin\<close> has no test of \<open>AdminPort\<close> in its own body: once it is called it
  registers its routes and listens.\<close>

lemma startAdmin_listens_whatever_the_port:
  assumes "template_ParseFS E = None"
  shows "fst (startAdmin E s) =
           [HttpHandle ''/static/'', HttpHandle ''/'',
            HttpListenAndServe (CHR '':'' # Itoa (AdminPort (cfg s)))]"
  using assms by (simp add: startAdmin_def Let_def split: option.splits)

text \<open>No handler of the tunnel engine has an effect of the administrative surface.\<close>

lemma handleCancel_no_admin: "\<not> list_ex admin_effect (snd (handleCancel s rPort))"
  by (simp add: handleCancel_def delForward_def split: option.splits prod.splits)

lemma handleMessage_no_admin: "\<not> list_ex admin_effect (snd (handleMessage E s conn buf))"
  by (simp add: handleMessage_def Let_def split: option.splits prod.splits)

lemma handleForward_go_no_admin:
  "\<not> list_ex admin_effect (fst (snd (handleForward_go E s commuConn userConn uuid)))"
  by (simp add: handleForward_go_def split: sum.splits)

lemma handleForward_accept_no_admin:
  "\<not> list_ex admin_effect (fst (snd (handleForward_accept E s commuConn accepted)))"
proof (induction accepted arbitrary: s)
  case Nil
  show ?case by simp
next
  case (Cons a accepted)
  obtain userConn uuid where a: "a = (userConn, uuid)" by (cases a)
  obtain s1 es1 r1 where go: "handleForward_go E s commuConn userConn uuid = (s1, es1, r1)"
    by (cases "handleForward_go E s commuConn userConn uuid")
  from handleForward_go_no_admin [of E s commuConn userConn uuid] go
  have es1: "\<not> list_ex admin_effect es1" by simp
  show ?case
  proof (cases r1)
    case (Some e)
    with a go es1 show ?thesis by simp
  next
    case None
    obtain s2 es2 r2 where rest: "handleForward_accept E s1 commuConn accepted = (s2, es2, r2)"
      by (cases "handleForward_accept E s1 commuConn accepted")
    from Cons.IH [of s1] rest have "\<not> list_ex admin_effect es2" by simp
    with None a go es1 rest show ?thesis by simp
  qed
qed

lemma handleForward_no_admin:
  "\<not> list_ex admin_effect (fst (snd (handleForward E s commuConn buf accepted)))"
proof -
  let ?f = "\<lparr>From = RemoteAddr commuConn, To = Sprintf_port (ParseRegisterPacket E buf),
             uListener = uL\<rparr>"
  show ?thesis
  proof (cases "isInvaliedPort (ParseRegisterPacket E buf)")
    case True
    then show ?thesis by (simp add: handleForward_def Let_def)
  next
    case False
    show ?thesis
    proof (cases "net_Listen E (Sprintf_port (ParseRegisterPacket E buf))")
      case (Inl err)
      with False show ?thesis by (simp add: handleForward_def Let_def)
    next
      case (Inr uL)
      obtain s' es r where acc:
        "handleForward_accept E
           (addForward s \<lparr>From = RemoteAddr commuConn,
                           To = Sprintf_port (ParseRegisterPacket E buf), uListener = uL\<rparr>)
           commuConn accepted = (s', es, r)"
        by (cases "handleForward_accept E
           (addForward s \<lparr>From = RemoteAddr commuConn,
                           To = Sprintf_port (ParseRegisterPacket E buf), uListener = uL\<rparr>)
           commuConn accepted")
      from handleForward_accept_no_admin
             [of E "addForward s \<lparr>From = RemoteAddr commuConn,
                           To = Sprintf_port (ParseRegisterPacket E buf), uListener = uL\<rparr>"
                 commuConn accepted] acc
      have "\<not> list_ex admin_effect es" by simp
      with False Inr acc show ?thesis
        by (simp add: handleForward_def Let_def split: option.splits)
    qed
  qed
qed

lemma handle_no_admin:
  "\<not> list_ex admin_effect (fst (snd (handle E s conn rd accepted)))"
proof -
  obtain packetType buf err where rd: "rd = (packetType, buf, err)" by (cases rd)
  show ?thesis
  proof (cases buf)
    case None
    with rd show ?thesis by (simp add: handle_def)
  next
    case (Some b)
    show ?thesis
    proof (cases err)
      case (Some e)
      with rd \<open>buf = Some b\<close> show ?thesis by (simp add: handle_def)
    next
      case None
      show ?thesis
      proof (cases packetType)
        case RegisterForward
        with rd \<open>buf = Some b\<close> None handleForward_no_admin [of E s conn b accepted]
        show ?thesis by (simp add: handle_def)
      next
        case ExchangeMsg
        obtain s' es where hm: "handleMessage E s conn b = (s', es)"
          by (cases "handleMessage E s conn b")
        with handleMessage_no_admin [of E s conn b] have "\<not> list_ex admin_effect es" by simp
        with rd \<open>buf = Some b\<close> None ExchangeMsg hm show ?thesis by (simp add: handle_def)
      next
        case CancelForward
        obtain s' es where hc: "handleCancel s (ParseCancelPacket E b) = (s', es)"
          by (cases "handleCancel s (ParseCancelPacket E b)")
        with handleCancel_no_admin [of s "ParseCancelPacket E b"]
        have "\<not> list_ex admin_effect es" by simp
        with rd \<open>buf = Some b\<close> None CancelForward hc show ?thesis by (simp add: handle_def)
      next
        case (OtherPacket k)
        with rd \<open>buf = Some b\<close> None show ?thesis by (simp add: handle_def)
      qed
    qed
  qed
qed

lemma Run_accept_no_admin:
  "\<not> list_ex admin_effect (fst (snd (Run_accept E s arrivals)))"
proof (induction arrivals arbitrary: s)
  case Nil
  show ?case by simp
next
  case (Cons a arrivals)
  obtain conn rd accepted where a: "a = (conn, rd, accepted)" by (cases a)
  obtain s1 es1 r1 where h: "handle E s conn rd accepted = (s1, es1, r1)"
    by (cases "handle E s conn rd accepted")
  from handle_no_admin [of E s conn rd accepted] h
  have es1: "\<not> list_ex admin_effect es1" by simp
  show ?case
  proof (cases r1)
    case (Some e)
    with a h es1 show ?thesis by simp
  next
    case None
    obtain s2 es2 r2 where rest: "Run_accept E s1 arrivals = (s2, es2, r2)"
      by (cases "Run_accept E s1 arrivals")
    from Cons.IH [of s1] rest have "\<not> list_ex admin_effect es2" by simp
    with None a h es1 rest show ?thesis by simp
  qed
qed

text \<open>
  C8. When the configuration has \<open>AdminPort = 0\<close> the administrative surface is
  disabled: the admin goroutine that \<^verbatim>\<open>Run\<close> starts does nothing, and in the whole
  run of the server no admin listener is started and no route of the status page is
  registered.
\<close>

theorem admin_port_zero_disables_admin:
  assumes "AdminPort (cfg s) = 0"
  shows "StartAdmin s = [] \<and> \<not> list_ex admin_effect (fst (snd (Run E s arrivals)))"
proof -
  from assms have off: "StartAdmin s = []" by (simp add: StartAdmin_def)
  obtain s' es r where acc: "Run_accept E s arrivals = (s', es, r)"
    by (cases "Run_accept E s arrivals")
  from Run_accept_no_admin [of E s arrivals] acc have "\<not> list_ex admin_effect es" by simp
  with off acc have "\<not> list_ex admin_effect (fst (snd (Run E s arrivals)))"
    by (simp add: Run_def Let_def split: sum.splits option.splits)
  with off show ?thesis by simp
qed

theorem admin_port_zero_disables_admin_witness:
  "AdminPort (cfg (newServer flagCfg_default)) = 0 \<and>
   StartAdmin (newServer flagCfg_default) = [] \<and>
   Run env_ex (newServer flagCfg_default) [] =
     (newServer flagCfg_default,
      [Go [], NetListen '':8910'', Log InfoF ''Server listen on port %d'',
       Log InfoF ''Error accepting: %v'', ListenerClose 7],
      None)"
proof -
  have h: "AdminPort (cfg (newServer flagCfg_default)) = 0"
    by (simp add: newServer_def flagCfg_default_def)
  have p: "Sprintf_port (Port (cfg (newServer flagCfg_default))) = '':8910''"
    by (simp add: newServer_def flagCfg_default_def Sprintf_port_8910)
  have l: "net_Listen env_ex '':8910'' = Inr 7" by (simp add: env_ex_def)
  from admin_port_zero_disables_admin [OF h, of env_ex "[]"] h p l
  show ?thesis by (simp add: Run_def Let_def)
qed

text \<open>The two fatal start-up paths of C9 that the code has: an unreadable config file
  and a main socket that cannot be bound.\<close>

lemma parseConfig_read_failure_is_fatal:
  assumes "os_ReadFile E cfgFile = Inl err"
  shows "parseConfig E cfgFile = Inl (Fatal ''Error reading config file: %v'')"
  using assms by (simp add: parseConfig_def)

lemma Command_Run_read_failure_is_fatal:
  assumes "cfgFile \<noteq> []" and "os_ReadFile E cfgFile = Inl err"
  shows "Command_Run E cfgFile flagCfg arrivals = Inl (Fatal ''Error reading config file: %v'')"
  using assms by (simp add: Command_Run_def parseConfig_def)

lemma Run_bind_failure_is_fatal:
  assumes "net_Listen E (Sprintf_port (Port (cfg s))) = Inl err"
  shows "Run E s arrivals =
           (s, [Go (StartAdmin s), NetListen (Sprintf_port (Port (cfg s)))],
            Some (Fatal ''Error listening: %v''))"
  using assms by (simp add: Run_def Let_def)

text \<open>The error of \<^verbatim>\<open>toml.Unmarshal\<close> does not reach the result of \<^verbatim>\<open>parseConfig\<close>.\<close>

lemma parseConfig_drops_decode_error:
  assumes "os_ReadFile E cfgFile = Inr data"
  shows "parseConfig E cfgFile = Inr (fst (toml_Unmarshal E data))"
  using assms by (simp add: parseConfig_def)

text \<open>
  C9, evaluated on the code. A config file that is read but cannot be parsed does
  not abort the process: \<^verbatim>\<open>parseConfig\<close> returns whatever the failed decoding left
  in the record, here the zero configuration, and the server is run with it.
\<close>

theorem unparsable_config_does_not_abort:
  "os_ReadFile env_ex ''pipe.toml'' = Inr ''port = ='' \<and>
   snd (toml_Unmarshal env_ex ''port = ='') = Some ''toml: expected value'' \<and>
   parseConfig env_ex ''pipe.toml'' = Inr \<lparr>Port = 0, AdminPort = 0\<rparr> \<and>
   Command_Run env_ex ''pipe.toml'' flagCfg_default [] =
     Inr (Run env_ex (newServer \<lparr>Port = 0, AdminPort = 0\<rparr>) [])"
  by (simp add: Command_Run_def parseConfig_def env_ex_def)

end
